theory Spec2Isabelle
  imports Main
begin

section \<open>The http output of http.go: data\<close>

text \<open>
  The model follows \<^verbatim>\<open>http.go\<close> function by function. Go's \<^verbatim>\<open>[]byte\<close> and
  \<^verbatim>\<open>string\<close> are both byte lists. A value of Go's \<^verbatim>\<open>error\<close> interface is a
  value of the datatype \<open>error\<close>: one constructor for each place an error comes from,
  carrying the text the library produced there. \<open>TransportError\<close> is an error returned
  by \<^verbatim>\<open>http.Client.Do\<close>, and \<open>NetError\<close> one produced by the network side of the
  dialer (\<^verbatim>\<open>net.SplitHostPort\<close>, \<^verbatim>\<open>dnsCache.LookupHost\<close>,
  \<^verbatim>\<open>net.Dialer.DialContext\<close>). \<open>Wrapped kind err\<close> is an error value built around
  another one, as Go wraps errors; no function of \<^verbatim>\<open>http.go\<close> builds one.
\<close>

type_synonym bytes = string

datatype error =
    ErrKeyNotFound
  | EncodeError string
  | MarshalError string
  | NewRequestError string
  | PoolAssertionError
  | TransportError string
  | BadResponseCode int
  | CloseError string
  | NetError string
  | Wrapped string error

text \<open>A run-time panic of Go, which no caller in this file recovers from.\<close>

datatype panic =
    NilMapAssignment
  | TypeAssertion
  | IndexOutOfRange nat nat

datatype 'a outcome = Panic panic | Return 'a

text \<open>
  The values an \<^verbatim>\<open>interface{}\<close> entry of a \<^verbatim>\<open>common.MapStr\<close> holds: nil, a
  string, a \<^verbatim>\<open>time.Time\<close>, or a value of any other dynamic type.
\<close>

datatype val = VNil | VString string | VTime nat | VOther string

type_synonym fields = "string \<rightharpoonup> val"

text \<open>
  A Go map is a reference: \<^verbatim>\<open>event.Content.Fields\<close> is the address of a map in the
  store (\<open>None\<close> is the nil map), and copying an event copies the address only.
\<close>

type_synonym addr = nat

record event =
  Timestamp :: nat
  Fields :: "addr option"
  Guaranteed :: bool

text \<open>The options of \<^verbatim>\<open>config\<close> that the functions below read.\<close>

record config =
  URL :: string
  OnlyFields :: bool
  Username :: string
  Password :: string
  AddFields :: fields

text \<open>
  A header value is a string; \<open>BasicAuth u p\<close> is the value
  \<^verbatim>\<open>"Basic " + base64(u + ":" + p)\<close> that \<^verbatim>\<open>SetBasicAuth\<close> stores under
  \<^verbatim>\<open>Authorization\<close>.
\<close>

datatype hval = Plain string | BasicAuth string string

record request =
  Method :: string
  Url :: string
  Header :: "string \<rightharpoonup> hval"
  Body :: "bytes option"

text \<open>
  A response: its status code, and the error \<^verbatim>\<open>resp.Body.Close()\<close> returns (if any).
\<close>

record response =
  StatusCode :: int
  CloseResult :: "string option"

text \<open>What \<^verbatim>\<open>sync.Pool\<close> hands out has type \<^verbatim>\<open>interface{}\<close>.\<close>

datatype pool_item = ItemRequest request | ItemError error | ItemOther

datatype level = DebugLevel | WarnLevel | ErrorLevel

datatype logmsg =
    SliceError error
  | SerializationError error
  | FailedToSerialize error
  | FailedEvent event
  | WritingFailed error
  | CloseBodyError error

text \<open>
  The calls the output makes on its collaborators, in the order it makes them: the
  observer (\<^verbatim>\<open>st.NewBatch\<close>, \<^verbatim>\<open>st.Failed\<close>, \<^verbatim>\<open>st.Acked\<close>), the batch
  (\<^verbatim>\<open>batch.ACK\<close>, \<^verbatim>\<open>batch.RetryEvents\<close>), the logger, the HTTP client and the
  response body. \<open>CallSend\<close> marks an invocation of \<^verbatim>\<open>out.send\<close>.
\<close>

datatype effect =
    ObsNewBatch nat
  | ObsFailed nat
  | ObsAcked nat
  | BatchACK
  | BatchRetryEvents "event list"
  | Log level logmsg
  | CallSend bytes
  | ClientDo request
  | BodyClose

text \<open>
  The mutable state: the store of field maps, the idle objects of \<^verbatim>\<open>out.reqPool\<close>,
  and the number of requests issued so far.
\<close>

record world =
  heap :: "addr \<Rightarrow> fields"
  idle :: "pool_item list"
  issued :: nat

text \<open>
  What the output is built from and talks to. The library functions and the remote side
  are parameters: \<open>url_error\<close> is the error of \<^verbatim>\<open>http.NewRequest\<close> for a URL (if any),
  \<open>codec_Encode\<close> the configured codec, \<open>json_Marshal\<close> the JSON encoder,
  \<open>client_Do n req\<close> the result of \<^verbatim>\<open>out.client.Do(req)\<close> when \<open>n\<close> requests have
  been issued before, and \<open>pool_choice\<close> the choice \<^verbatim>\<open>sync.Pool\<close> makes in \<^verbatim>\<open>Get\<close>:
  the position of the idle object it hands out, or \<open>None\<close> when it hands out none.
\<close>

record env =
  conf :: config
  beat_Beat :: string
  beat_Version :: string
  url_error :: "string \<Rightarrow> string option"
  codec_Encode :: "string \<Rightarrow> event \<Rightarrow> fields option \<Rightarrow> string + bytes"
  json_Marshal :: "fields \<Rightarrow> string + bytes"
  client_Do :: "nat \<Rightarrow> request \<Rightarrow> string + response"
  pool_choice :: "world \<Rightarrow> nat option"

section \<open>The request pool\<close>

text \<open>
  \<^verbatim>\<open>New\<close> of the pool: \<^verbatim>\<open>http.NewRequest("POST", out.conf.URL, nil)\<close>, a request
  with an empty header and no body, or the error.
\<close>

definition pool_New :: "env \<Rightarrow> pool_item" where
  "pool_New e =
     (case url_error e (URL (conf e)) of
        Some m \<Rightarrow> ItemError (NewRequestError m)
      | None \<Rightarrow> ItemRequest \<lparr>Method = ''POST'', Url = URL (conf e), Header = Map.empty, Body = None\<rparr>)"

text \<open>
  \<^verbatim>\<open>out.reqPool.Get()\<close>: the pool takes an idle object of its choice out and returns
  it; when it chooses none (it may do so even if some are idle), or none is there, it
  returns the result of \<^verbatim>\<open>New\<close>.
\<close>

definition pool_Get :: "env \<Rightarrow> world \<Rightarrow> pool_item \<times> world" where
  "pool_Get e w =
     (case pool_choice e w of
        None \<Rightarrow> (pool_New e, w)
      | Some i \<Rightarrow>
          (if i < length (idle w)
           then (idle w ! i, w\<lparr>idle := take i (idle w) @ drop (Suc i) (idle w)\<rparr>)
           else (pool_New e, w)))"

definition SetBasicAuth :: "request \<Rightarrow> string \<Rightarrow> string \<Rightarrow> request" where
  "SetBasicAuth req u p = req\<lparr>Header := (Header req)(''Authorization'' \<mapsto> BasicAuth u p)\<rparr>"

definition getReq :: "env \<Rightarrow> world \<Rightarrow> bytes \<Rightarrow> (error + request) \<times> world" where
  "getReq e w data =
     (case pool_Get e w of
        (ItemRequest req, w1) \<Rightarrow>
          (let req1 = req\<lparr>Body := Some data\<rparr>;
               req2 = req1\<lparr>Header := (Header req1)(''User-Agent'' \<mapsto> Plain (''beat '' @ beat_Version e))\<rparr>;
               req3 = req2\<lparr>Header := (Header req2)(''Content-Type'' \<mapsto> Plain ''application/json'')\<rparr>;
               req4 = (if Username (conf e) \<noteq> ''''
                       then SetBasicAuth req3 (Username (conf e)) (Password (conf e))
                       else req3)
           in (Inr req4, w1))
      | (ItemError err, w1) \<Rightarrow> (Inl err, w1)
      | (ItemOther, w1) \<Rightarrow> (Inl PoolAssertionError, w1))"

definition putReq :: "world \<Rightarrow> request \<Rightarrow> world" where
  "putReq w req = w\<lparr>idle := ItemRequest req # idle w\<rparr>"

section \<open>send\<close>

text \<open>
  \<^verbatim>\<open>send\<close> returns its error (\<open>None\<close> is nil), the new state and the calls it made.
  The deferred \<^verbatim>\<open>putReq\<close> runs on every path after \<^verbatim>\<open>getReq\<close> succeeded.
\<close>

definition send :: "env \<Rightarrow> world \<Rightarrow> bytes \<Rightarrow> error option \<times> world \<times> effect list" where
  "send e w data =
     (case getReq e w data of
        (Inl err, w1) \<Rightarrow> (Some err, w1, [CallSend data])
      | (Inr req, w1) \<Rightarrow>
          (let w2 = w1\<lparr>issued := Suc (issued w1)\<rparr> in
           case client_Do e (issued w1) req of
             Inl m \<Rightarrow> (Some (TransportError m), putReq w2 req, [CallSend data, ClientDo req])
           | Inr resp \<Rightarrow>
               (let closing = (case CloseResult resp of
                                 None \<Rightarrow> []
                               | Some m \<Rightarrow> [Log WarnLevel (CloseBodyError (CloseError m))])
                in (if StatusCode resp \<noteq> 200
                    then Some (BadResponseCode (StatusCode resp))
                    else None,
                    putReq w2 req,
                    [CallSend data, ClientDo req, BodyClose] @ closing))))"

section \<open>Serialization\<close>

text \<open>
  \<^verbatim>\<open>strings.Split(s, sep)\<close> for a separator of one byte (the file splits on
  \<^verbatim>\<open>" "\<close> only): the pieces between the separators, one more than there are
  separators, empty pieces included.
\<close>

fun Split :: "string \<Rightarrow> char \<Rightarrow> string list" where
  "Split [] sep = [[]]"
| "Split (c # cs) sep =
     (if c = sep then [] # Split cs sep
      else (case Split cs sep of
              [] \<Rightarrow> [[c]]
            | piece # pieces \<Rightarrow> (c # piece) # pieces))"

text \<open>
  \<^verbatim>\<open>MapStr.GetValue(key)\<close> for a key without a dot: the value stored under the key,
  or nil and \<^verbatim>\<open>ErrKeyNotFound\<close>.
\<close>

definition GetValue :: "fields \<Rightarrow> string \<Rightarrow> val \<times> error option" where
  "GetValue m key =
     (case m key of
        Some v \<Rightarrow> (v, None)
      | None \<Rightarrow> (VNil, Some ErrKeyNotFound))"

definition store :: "world \<Rightarrow> addr \<Rightarrow> fields \<Rightarrow> world" where
  "store w a m = w\<lparr>heap := (heap w)(a := m)\<rparr>"

text \<open>The assignments \<^verbatim>\<open>fields[key] = slice[i]\<close> of lines 190 to 206, in order.\<close>

definition token_fields :: "(string \<times> nat) list" where
  "token_fields =
     [(''ifindex'', 3), (''actionCode'', 4), (''aclTag'', 6), (''ruleDesc'', 8),
      (''protocol'', 9), (''NFFOrDash'', 10), (''srcIp'', 11), (''srcPort'', 12),
      (''dstIp'', 13), (''dstPort'', 14), (''octProto'', 17), (''isInput'', 19),
      (''isSlowpath'', 21), (''hexFlegs'', 23), (''invalidOrDash'', 25),
      (''tcpflags'', 26), (''rsvd'', 28)]"

text \<open>The assignments of lines 209 to 211, made when \<^verbatim>\<open>len(slice) > 29\<close>.\<close>

definition counter_fields :: "(string \<times> nat) list" where
  "counter_fields = [(''dur'', 30), (''pkts'', 32), (''bytes'', 34)]"

text \<open>
  Running such assignments: an index beyond the slice panics, and the assignments made
  before it stay in the map.
\<close>

fun assign_tokens :: "string list \<Rightarrow> (string \<times> nat) list \<Rightarrow> fields \<Rightarrow> panic option \<times> fields" where
  "assign_tokens slice [] m = (None, m)"
| "assign_tokens slice ((key, i) # rest) m =
     (if i < length slice
      then assign_tokens slice rest (m(key \<mapsto> VString (slice ! i)))
      else (Some (IndexOutOfRange i (length slice)), m))"

text \<open>
  A serializer returns \<^verbatim>\<open>([]byte, error)\<close>, here \<open>Inr\<close> the bytes or \<open>Inl\<close> the error
  (the bytes are empty then), or it panics. \<^verbatim>\<open>serializeOnlyFields\<close> writes into the
  event's own map: the writes stay in the store.
\<close>

definition serializeOnlyFields ::
  "env \<Rightarrow> world \<Rightarrow> event \<Rightarrow> (error + bytes) outcome \<times> world \<times> effect list" where
  "serializeOnlyFields e w ev =
     (case Fields ev of
        None \<Rightarrow> (Panic NilMapAssignment, w, [])
      | Some a \<Rightarrow>
          (let m1 = (heap w a)(''@timestamp'' \<mapsto> VTime (Timestamp ev));
               m2 = m1 ++ AddFields (conf e);
               (body, err) = GetValue m2 ''body''
           in case body of
                VString s \<Rightarrow>
                  (let slice = Split s CHR '' '' in
                   case err of
                     Some er \<Rightarrow>
                       (Return (Inl er), store w a m2, [Log ErrorLevel (SliceError er)])
                   | None \<Rightarrow>
                       (case assign_tokens slice token_fields m2 of
                          (Some p, m3) \<Rightarrow> (Panic p, store w a m3, [])
                        | (None, m3) \<Rightarrow>
                            (case (if length slice > 29
                                   then assign_tokens slice counter_fields m3
                                   else (None, m3)) of
                               (Some p, m4) \<Rightarrow> (Panic p, store w a m4, [])
                             | (None, m4) \<Rightarrow>
                                 (case json_Marshal e m4 of
                                    Inl msg \<Rightarrow>
                                      (Return (Inl (MarshalError msg)), store w a m4,
                                       [Log ErrorLevel (SerializationError (MarshalError msg))])
                                  | Inr b \<Rightarrow> (Return (Inr b), store w a m4, [])))))
              | _ \<Rightarrow> (Panic TypeAssertion, store w a m2, [])))"

definition serializeAll ::
  "env \<Rightarrow> world \<Rightarrow> event \<Rightarrow> (error + bytes) outcome \<times> world \<times> effect list" where
  "serializeAll e w ev =
     (case codec_Encode e (beat_Beat e) ev (map_option (heap w) (Fields ev)) of
        Inl msg \<Rightarrow>
          (Return (Inl (EncodeError msg)), w,
           [Log ErrorLevel (SerializationError (EncodeError msg))])
      | Inr b \<Rightarrow> (Return (Inr b), w, []))"

text \<open>\<^verbatim>\<open>out.serialize\<close>, as \<^verbatim>\<open>makeHTTP\<close> selects it.\<close>

definition serialize ::
  "env \<Rightarrow> world \<Rightarrow> event \<Rightarrow> (error + bytes) outcome \<times> world \<times> effect list" where
  "serialize e = (if OnlyFields (conf e) then serializeOnlyFields e else serializeAll e)"

section \<open>Publish\<close>

definition severity :: "event \<Rightarrow> level" where
  "severity ev = (if Guaranteed ev then ErrorLevel else WarnLevel)"

text \<open>
  The loop of \<^verbatim>\<open>Publish\<close> over the events still to do; \<open>events\<close> is the whole batch.
  The result is the returned error (always nil) or the panic of the serializer.
\<close>

fun publish_events ::
  "env \<Rightarrow> event list \<Rightarrow> event list \<Rightarrow> world \<Rightarrow> error option outcome \<times> world \<times> effect list" where
  "publish_events e events [] w = (Return None, w, [BatchACK, ObsAcked (length events)])"
| "publish_events e events (ev # rest) w =
     (case serialize e w ev of
        (Panic p, w1, fx1) \<Rightarrow> (Panic p, w1, fx1)
      | (Return (Inl err), w1, fx1) \<Rightarrow>
          (Return None, w1,
           fx1 @ [Log (severity ev) (FailedToSerialize err), Log DebugLevel (FailedEvent ev),
                  BatchRetryEvents events, ObsFailed (length events)])
      | (Return (Inr data), w1, fx1) \<Rightarrow>
          (case send e w1 data of
             (Some err, w2, fx2) \<Rightarrow>
               (Return None, w2,
                fx1 @ fx2 @ [Log (severity ev) (WritingFailed err), ObsFailed (length events)])
           | (None, w2, fx2) \<Rightarrow>
               (case publish_events e events rest w2 of
                  (r, w3, fx3) \<Rightarrow> (r, w3, fx1 @ fx2 @ fx3))))"

definition Publish ::
  "env \<Rightarrow> world \<Rightarrow> event list \<Rightarrow> error option outcome \<times> world \<times> effect list" where
  "Publish e w events =
     (if length events = 0
      then (Return None, w, [ObsNewBatch (length events), BatchACK])
      else (case publish_events e events events w of
              (r, w1, fx) \<Rightarrow> (r, w1, ObsNewBatch (length events) # fx)))"

text \<open>The calls on the batch, on the observer, and the invocations of \<^verbatim>\<open>send\<close>.\<close>

fun is_batch_call :: "effect \<Rightarrow> bool" where
  "is_batch_call BatchACK = True"
| "is_batch_call (BatchRetryEvents evs) = True"
| "is_batch_call _ = False"

fun is_observer_call :: "effect \<Rightarrow> bool" where
  "is_observer_call (ObsNewBatch n) = True"
| "is_observer_call (ObsFailed n) = True"
| "is_observer_call (ObsAcked n) = True"
| "is_observer_call _ = False"

fun is_send_call :: "effect \<Rightarrow> bool" where
  "is_send_call (CallSend data) = True"
| "is_send_call _ = False"

definition batch_calls :: "effect list \<Rightarrow> effect list" where
  "batch_calls fx = filter is_batch_call fx"

definition observer_calls :: "effect list \<Rightarrow> effect list" where
  "observer_calls fx = filter is_observer_call fx"

definition send_calls :: "effect list \<Rightarrow> effect list" where
  "send_calls fx = filter is_send_call fx"

text \<open>
  \<open>delivered e w evs\<close> is the state reached, and the calls made, when each event of
  \<open>evs\<close> in turn, from the state \<open>w\<close> on, serializes without error and is sent without
  error; \<open>None\<close> when one of them does not.
\<close>

fun delivered :: "env \<Rightarrow> world \<Rightarrow> event list \<Rightarrow> (world \<times> effect list) option" where
  "delivered e w [] = Some (w, [])"
| "delivered e w (ev # rest) =
     (case serialize e w ev of
        (Return (Inr data), w1, fx1) \<Rightarrow>
          (case send e w1 data of
             (None, w2, fx2) \<Rightarrow>
               (case delivered e w2 rest of
                  Some (w3, fx3) \<Rightarrow> Some (w3, fx1 @ fx2 @ fx3)
                | None \<Rightarrow> None)
           | (Some err, w2, fx2) \<Rightarrow> None)
      | _ \<Rightarrow> None)"

text \<open>
  Sequential acquire and release: \<^verbatim>\<open>getReq\<close> with each payload in turn, each request
  given back with \<^verbatim>\<open>putReq\<close> before the next one is taken. The result lists what each
  \<^verbatim>\<open>getReq\<close> returned.
\<close>

fun acquire_release :: "env \<Rightarrow> world \<Rightarrow> bytes list \<Rightarrow> (error + request) list \<times> world" where
  "acquire_release e w [] = ([], w)"
| "acquire_release e w (data # rest) =
     (case getReq e w data of
        (Inl err, w1) \<Rightarrow>
          (case acquire_release e w1 rest of (rs, w2) \<Rightarrow> (Inl err # rs, w2))
      | (Inr req, w1) \<Rightarrow>
          (case acquire_release e (putReq w1 req) rest of (rs, w2) \<Rightarrow> (Inr req # rs, w2)))"

text \<open>
  The idle objects the output itself can have put into the pool: requests, and none of
  them with an \<^verbatim>\<open>Authorization\<close> header unless a username is configured.
\<close>

fun item_ok :: "env \<Rightarrow> pool_item \<Rightarrow> bool" where
  "item_ok e (ItemRequest req) =
     (Username (conf e) = '''' \<longrightarrow> Header req ''Authorization'' = None)"
| "item_ok e _ = False"

definition pool_ok :: "env \<Rightarrow> world \<Rightarrow> bool" where
  "pool_ok e w = list_all (item_ok e) (idle w)"

text \<open>
  A request as \<^verbatim>\<open>getReq\<close> is to hand it out for the payload \<open>data\<close>: the body is
  the payload, the two standard headers are set, and the credentials are set exactly when
  a username is configured.
\<close>

definition fresh :: "env \<Rightarrow> bytes \<Rightarrow> request \<Rightarrow> bool" where
  "fresh e data req =
     (Body req = Some data
      \<and> Header req ''Content-Type'' = Some (Plain ''application/json'')
      \<and> Header req ''User-Agent'' = Some (Plain (''beat '' @ beat_Version e))
      \<and> ((Header req ''Authorization'' \<noteq> None) = (Username (conf e) \<noteq> ''''))
      \<and> (Username (conf e) \<noteq> '''' \<longrightarrow>
           Header req ''Authorization'' = Some (BasicAuth (Username (conf e)) (Password (conf e)))))"

section \<open>The dialer of the transport\<close>

text \<open>
  \<^verbatim>\<open>net.JoinHostPort\<close>: a host with a colon in it is taken for an IPv6 literal and put
  in brackets.
\<close>

definition JoinHostPort :: "string \<Rightarrow> string \<Rightarrow> string" where
  "JoinHostPort host port =
     (if CHR '':'' \<in> set host then ''['' @ host @ '']:'' @ port else host @ '':'' @ port)"

type_synonym conn = nat

text \<open>
  The network as the dialer sees it: \<^verbatim>\<open>net.SplitHostPort\<close>, the resolver
  \<^verbatim>\<open>dnsCache.LookupHost\<close>, and \<open>dialer_DialContext k network address\<close>, the result of
  the connection attempt made after \<open>k\<close> earlier attempts of the same call.
\<close>

record net_env =
  SplitHostPort :: "string \<Rightarrow> error + (string \<times> string)"
  LookupHost :: "string \<Rightarrow> error + string list"
  dialer_DialContext :: "nat \<Rightarrow> string \<Rightarrow> string \<Rightarrow> error + conn"

text \<open>
  The loop over \<^verbatim>\<open>ips\<close>. The pair \<open>(conn, err)\<close> are the named results, assigned by
  every attempt with what the dialer returned; the second component of the result lists
  the addresses dialled, in order.
\<close>

fun dial_ips ::
  "net_env \<Rightarrow> string \<Rightarrow> string \<Rightarrow> nat \<Rightarrow> string list \<Rightarrow> conn option \<times> error option
     \<Rightarrow> (conn option \<times> error option) \<times> string list" where
  "dial_ips ne network port k [] res = (res, [])"
| "dial_ips ne network port k (ip # ips) res =
     (case dialer_DialContext ne k network (JoinHostPort ip port) of
        Inr c \<Rightarrow> ((Some c, None), [JoinHostPort ip port])
      | Inl err \<Rightarrow>
          (case dial_ips ne network port (Suc k) ips (None, Some err) of
             (r, dialled) \<Rightarrow> (r, JoinHostPort ip port # dialled)))"

definition DialContext ::
  "net_env \<Rightarrow> string \<Rightarrow> string \<Rightarrow> (conn option \<times> error option) \<times> string list" where
  "DialContext ne network addr =
     (case SplitHostPort ne addr of
        Inl err \<Rightarrow> ((None, Some err), [])
      | Inr (host, port) \<Rightarrow>
          (case LookupHost ne host of
             Inl err \<Rightarrow> ((None, Some err), [])
           | Inr ips \<Rightarrow> dial_ips ne network port 0 ips (None, None)))"

text \<open>
  The error the specification describes for a dial in which every candidate fails: the
  last error, wrapped as \<^verbatim>\<open>DialError\<close>. It is here to be compared with what
  \<open>DialContext\<close> returns.
\<close>

definition wrapped_as_DialError :: "error \<Rightarrow> error" where
  "wrapped_as_DialError err = Wrapped ''DialError'' err"

section \<open>A concrete output\<close>

text \<open>
  An output configured with credentials and the full codec, a remote that answers 200, a
  pool that hands out its most recent idle object, no idle object and an empty store; and
  the variations the examples below run on.
\<close>

definition ex_conf :: config where
  "ex_conf = \<lparr>URL = ''http://collector:8080/logs'', OnlyFields = False,
              Username = ''beat'', Password = ''secret'', AddFields = Map.empty\<rparr>"

definition ex_env :: env where
  "ex_env = \<lparr>conf = ex_conf, beat_Beat = ''filebeat'', beat_Version = ''7.10.0'',
             url_error = (\<lambda>u. None),
             codec_Encode = (\<lambda>b ev m. case m of None \<Rightarrow> Inl ''no fields'' | Some f \<Rightarrow> Inr ''{}''),
             json_Marshal = (\<lambda>m. Inr ''{}''),
             client_Do = (\<lambda>n req. Inr \<lparr>StatusCode = 200, CloseResult = None\<rparr>),
             pool_choice = (\<lambda>w. if idle w = [] then None else Some 0)\<rparr>"

text \<open>The same output when the remote answers 200 once and 503 from then on.\<close>

definition ex_env_down :: env where
  "ex_env_down =
     ex_env\<lparr>client_Do := (\<lambda>n req. if n = 0 then Inr \<lparr>StatusCode = 200, CloseResult = None\<rparr>
                                   else Inr \<lparr>StatusCode = 503, CloseResult = Some ''broken pipe''\<rparr>)\<rparr>"

text \<open>The same output with \<^verbatim>\<open>only_fields\<close> switched on.\<close>

definition ex_env_only :: env where
  "ex_env_only = ex_env\<lparr>conf := ex_conf\<lparr>OnlyFields := True\<rparr>\<rparr>"

definition ex_world :: world where
  "ex_world = \<lparr>heap = (\<lambda>a. Map.empty), idle = [], issued = 0\<rparr>"

text \<open>A store whose maps hold the given log line under \<^verbatim>\<open>body\<close>.\<close>

definition ex_world_body :: "string \<Rightarrow> world" where
  "ex_world_body line = \<lparr>heap = (\<lambda>a. [''body'' \<mapsto> VString line]), idle = [], issued = 0\<rparr>"

definition ex_request :: "bytes \<Rightarrow> request" where
  "ex_request data =
     \<lparr>Method = ''POST'', Url = ''http://collector:8080/logs'',
      Header = [''User-Agent'' \<mapsto> Plain ''beat 7.10.0'',
                ''Content-Type'' \<mapsto> Plain ''application/json'',
                ''Authorization'' \<mapsto> BasicAuth ''beat'' ''secret''],
      Body = Some data\<rparr>"

definition ex_event :: "nat \<Rightarrow> event" where
  "ex_event t = \<lparr>Timestamp = t, Fields = Some 0, Guaranteed = True\<rparr>"

text \<open>An event with a nil field map, which the codec of \<open>ex_env\<close> rejects.\<close>

definition ex_event_nil :: event where
  "ex_event_nil = \<lparr>Timestamp = 9, Fields = None, Guaranteed = False\<rparr>"

text \<open>A log line of 30 pieces.\<close>

definition ex_line :: string where
  "ex_line = ''a b c d e f g h i j k l m n o p q r s t u v w x y z A B C D''"

text \<open>
  A network in which \<^verbatim>\<open>collector\<close> resolves to two addresses, the first of which
  refuses connections, \<^verbatim>\<open>standby\<close> resolves to one address that refuses,
  \<^verbatim>\<open>backup\<close> to two addresses that fail with different errors, and \<^verbatim>\<open>nowhere\<close>
  does not resolve.
\<close>

definition ex_net :: net_env where
  "ex_net =
     \<lparr>SplitHostPort = (\<lambda>a. if a = ''collector:8080'' then Inr (''collector'', ''8080'')
                            else if a = ''standby:8080'' then Inr (''standby'', ''8080'')
                            else if a = ''backup:8080'' then Inr (''backup'', ''8080'')
                            else if a = ''nowhere:8080'' then Inr (''nowhere'', ''8080'')
                            else Inl (NetError ''missing port in address'')),
      LookupHost = (\<lambda>h. if h = ''collector'' then Inr [''10.0.0.1'', ''10.0.0.2'']
                         else if h = ''standby'' then Inr [''10.0.0.3'']
                         else if h = ''backup'' then Inr [''10.0.0.4'', ''10.0.0.5'']
                         else Inl (NetError ''no such host'')),
      dialer_DialContext = (\<lambda>k network a. if a = ''10.0.0.2:8080'' then Inr 7
                                           else if a = ''10.0.0.5:8080''
                                           then Inl (NetError ''network is unreachable'')
                                           else Inl (NetError ''connection refused''))\<rparr>"

lemmas ex_defs = ex_conf_def ex_env_def ex_env_down_def ex_env_only_def ex_world_def
  ex_world_body_def ex_event_def ex_event_nil_def

lemmas run_defs = serialize_def serializeAll_def send_def getReq_def pool_Get_def pool_New_def
  putReq_def SetBasicAuth_def Let_def

section \<open>Properties of send\<close>

text \<open>
  Claim C5. \<^verbatim>\<open>send\<close> returns an error exactly when no request could be obtained from
  the pool, or the client could not carry the request out, or the response has a status
  code other than 200. Every status code other than 200 is an error, whatever its class.
\<close>

theorem send_error_iff:
  "(fst (send e w data) \<noteq> None) =
     ((\<exists>err w1. getReq e w data = (Inl err, w1)) \<or>
      (\<exists>req w1. getReq e w data = (Inr req, w1) \<and>
         ((\<exists>m. client_Do e (issued w1) req = Inl m) \<or>
          (\<exists>resp. client_Do e (issued w1) req = Inr resp \<and> StatusCode resp \<noteq> 200))))"
proof (cases "getReq e w data")
  case (Pair r w1)
  show ?thesis
  proof (cases r)
    case (Inl err)
    with Pair show ?thesis by (simp add: send_def)
  next
    case (Inr req)
    show ?thesis
    proof (cases "client_Do e (issued w1) req")
      case (Inl m)
      with Pair Inr show ?thesis by (simp add: send_def Let_def)
    next
      case (Inr resp)
      with Pair \<open>r = Inr req\<close> show ?thesis by (simp add: send_def Let_def)
    qed
  qed
qed

text \<open>The second request to the remote of \<open>ex_env_down\<close> is answered 503: an error.\<close>

theorem send_error_iff_witness:
  "fst (send ex_env_down (ex_world\<lparr>issued := 1\<rparr>) ''{}'') \<noteq> None"
proof -
  have h1: "getReq ex_env_down (ex_world\<lparr>issued := 1\<rparr>) ''{}'' =
              (Inr (ex_request ''{}''), ex_world\<lparr>issued := 1\<rparr>)"
    by (simp add: getReq_def pool_Get_def pool_New_def SetBasicAuth_def ex_request_def ex_defs)
  have h2: "client_Do ex_env_down (issued (ex_world\<lparr>issued := 1\<rparr>)) (ex_request ''{}'') =
              Inr \<lparr>StatusCode = 503, CloseResult = Some ''broken pipe''\<rparr>"
    by (simp add: ex_defs)
  have h3: "StatusCode \<lparr>StatusCode = 503, CloseResult = Some ''broken pipe''\<rparr> \<noteq> 200"
    by simp
  from h1 h2 h3 show ?thesis
    unfolding send_error_iff by blast
qed

text \<open>
  Claim C6. When the client returns a response, \<^verbatim>\<open>send\<close> closes the body of the
  response before it returns, whatever the status code: the calls it makes are the
  request, then the close, then a warning in the log if the close failed. What
  \<^verbatim>\<open>send\<close> returns depends on the status code only, not on the result of the close.
\<close>

theorem send_closes_body:
  assumes "getReq e w data = (Inr req, w1)"
    and "client_Do e (issued w1) req = Inr resp"
  shows "fst (send e w data) =
           (if StatusCode resp = 200 then None else Some (BadResponseCode (StatusCode resp)))
         \<and> snd (snd (send e w data)) =
             [CallSend data, ClientDo req, BodyClose] @
             (case CloseResult resp of
                None \<Rightarrow> []
              | Some m \<Rightarrow> [Log WarnLevel (CloseBodyError (CloseError m))])"
  using assms by (simp add: send_def Let_def)

text \<open>A 503 whose body fails to close: the body is closed, the failure logged, and the
  error returned is the one for the status code.\<close>

theorem send_closes_body_witness:
  "fst (send ex_env_down (ex_world\<lparr>issued := 1\<rparr>) ''{}'') = Some (BadResponseCode 503)
   \<and> snd (snd (send ex_env_down (ex_world\<lparr>issued := 1\<rparr>) ''{}'')) =
       [CallSend ''{}'', ClientDo (ex_request ''{}''), BodyClose,
        Log WarnLevel (CloseBodyError (CloseError ''broken pipe''))]"
proof -
  have h1: "getReq ex_env_down (ex_world\<lparr>issued := 1\<rparr>) ''{}'' =
              (Inr (ex_request ''{}''), ex_world\<lparr>issued := 1\<rparr>)"
    by (simp add: getReq_def pool_Get_def pool_New_def SetBasicAuth_def ex_request_def ex_defs)
  have h2: "client_Do ex_env_down (issued (ex_world\<lparr>issued := 1\<rparr>)) (ex_request ''{}'') =
              Inr \<lparr>StatusCode = 503, CloseResult = Some ''broken pipe''\<rparr>"
    by (simp add: ex_defs)
  from send_closes_body [OF h1 h2] show ?thesis by simp
qed

section \<open>Properties of the request pool\<close>

lemma pool_New_ok: "pool_New e = ItemRequest req \<Longrightarrow> item_ok e (ItemRequest req)"
  by (auto simp: pool_New_def split: option.splits)

lemma pool_Get_cases:
  assumes "pool_Get e w = (it, w1)"
  shows "(it = pool_New e \<and> w1 = w)
       \<or> (\<exists>i<length (idle w). it = idle w ! i
             \<and> w1 = w\<lparr>idle := take i (idle w) @ drop (Suc i) (idle w)\<rparr>)"
proof (cases "pool_choice e w")
  case None
  with assms show ?thesis by (simp add: pool_Get_def)
next
  case (Some i)
  show ?thesis
  proof (cases "i < length (idle w)")
    case True
    with Some assms have "it = idle w ! i"
      and "w1 = w\<lparr>idle := take i (idle w) @ drop (Suc i) (idle w)\<rparr>"
      by (simp_all add: pool_Get_def)
    with True show ?thesis by blast
  next
    case False
    with Some assms show ?thesis by (simp add: pool_Get_def)
  qed
qed

lemma pool_ok_remove:
  assumes "pool_ok e w"
  shows "pool_ok e (w\<lparr>idle := take i (idle w) @ drop (Suc i) (idle w)\<rparr>)"
proof -
  have "set (take i (idle w) @ drop (Suc i) (idle w)) \<subseteq> set (idle w)"
    using set_take_subset [of i "idle w"] set_drop_subset [of "Suc i" "idle w"] by simp
  with assms show ?thesis
    unfolding pool_ok_def list_all_iff by auto
qed

lemma pool_ok_nth:
  assumes "pool_ok e w" and "i < length (idle w)"
  shows "item_ok e (idle w ! i)"
  using assms by (simp add: pool_ok_def list_all_length)

lemma pool_Get_ok:
  assumes "pool_ok e w" and "pool_Get e w = (it, w1)"
  shows "pool_ok e w1 \<and> (\<forall>req. it = ItemRequest req \<longrightarrow> item_ok e it)"
proof -
  from pool_Get_cases [OF assms(2)] show ?thesis
  proof
    assume "it = pool_New e \<and> w1 = w"
    with assms(1) pool_New_ok [of e] show ?thesis by auto
  next
    assume "\<exists>i<length (idle w). it = idle w ! i
             \<and> w1 = w\<lparr>idle := take i (idle w) @ drop (Suc i) (idle w)\<rparr>"
    then obtain i where "i < length (idle w)" "it = idle w ! i"
      "w1 = w\<lparr>idle := take i (idle w) @ drop (Suc i) (idle w)\<rparr>" by blast
    with pool_ok_remove [OF assms(1), of i] pool_ok_nth [OF assms(1), of i]
    have "pool_ok e w1" and "item_ok e it" by simp_all
    then show ?thesis by blast
  qed
qed

lemma pool_Get_request:
  assumes "pool_ok e w" and "url_error e (URL (conf e)) = None"
  shows "\<exists>req w1. pool_Get e w = (ItemRequest req, w1)"
proof -
  obtain it w1 where get: "pool_Get e w = (it, w1)" by (cases "pool_Get e w")
  have "\<exists>req. it = ItemRequest req"
    using pool_Get_cases [OF get]
  proof
    assume "it = pool_New e \<and> w1 = w"
    with assms(2) show ?thesis by (simp add: pool_New_def)
  next
    assume "\<exists>i<length (idle w). it = idle w ! i
             \<and> w1 = w\<lparr>idle := take i (idle w) @ drop (Suc i) (idle w)\<rparr>"
    then obtain i where i: "i < length (idle w)" "it = idle w ! i" by blast
    from pool_ok_nth [OF assms(1) i(1)] i(2) have "item_ok e it" by simp
    then show ?thesis by (cases it) simp_all
  qed
  with get show ?thesis by blast
qed

lemma getReq_fresh:
  assumes "pool_ok e w" and "getReq e w data = (Inr req, w1)"
  shows "fresh e data req \<and> pool_ok e w1"
proof -
  from assms(2) obtain r0 where get: "pool_Get e w = (ItemRequest r0, w1)"
    by (auto simp: getReq_def Let_def split: prod.splits pool_item.splits)
  from pool_Get_ok [OF assms(1) get] have r0: "item_ok e (ItemRequest r0)" and w1: "pool_ok e w1"
    by simp_all
  from assms(2) get r0 have "fresh e data req"
    by (auto simp: getReq_def fresh_def Let_def SetBasicAuth_def split: if_splits)
  with w1 show ?thesis by simp
qed

lemma getReq_pool_ok:
  assumes "pool_ok e w" and "getReq e w data = (r, w1)"
  shows "pool_ok e w1"
proof -
  obtain it w' where get: "pool_Get e w = (it, w')" by (cases "pool_Get e w")
  with assms(2) have "w1 = w'"
    by (cases it) (auto simp: getReq_def Let_def)
  with pool_Get_ok [OF assms(1) get] show ?thesis by simp
qed

text \<open>With a URL that parses, a pool of the output's own never fails to give a request.\<close>

lemma getReq_succeeds:
  assumes "pool_ok e w" and "url_error e (URL (conf e)) = None"
  shows "\<exists>req w1. getReq e w data = (Inr req, w1)"
proof -
  from pool_Get_request [OF assms] obtain r0 w1 where "pool_Get e w = (ItemRequest r0, w1)"
    by blast
  then show ?thesis by (simp add: getReq_def Let_def)
qed

lemma putReq_pool_ok:
  "pool_ok e w \<Longrightarrow> fresh e data req \<Longrightarrow> pool_ok e (putReq w req)"
  by (auto simp: pool_ok_def putReq_def fresh_def)

lemma acquire_release_fresh:
  "pool_ok e w \<Longrightarrow> i < length payloads \<Longrightarrow>
     fst (acquire_release e w payloads) ! i = Inr req \<Longrightarrow> fresh e (payloads ! i) req"
proof (induction payloads arbitrary: w i)
  case Nil
  then show ?case by simp
next
  case (Cons data rest)
  obtain r w1 where get: "getReq e w data = (r, w1)" by (cases "getReq e w data")
  from getReq_pool_ok [OF Cons.prems(1) get] have w1: "pool_ok e w1" .
  show ?case
  proof (cases r)
    case (Inl err)
    with get Cons.prems w1 Cons.IH [of w1] show ?thesis
      by (cases i) (auto split: prod.splits)
  next
    case (Inr r0)
    from getReq_fresh [OF Cons.prems(1)] get Inr have f0: "fresh e data r0" by simp
    with w1 have "pool_ok e (putReq w1 r0)" by (auto intro: putReq_pool_ok)
    with get Inr Cons.prems f0 Cons.IH [of "putReq w1 r0"] show ?thesis
      by (cases i) (auto split: prod.splits)
  qed
qed

lemma acquire_release_succeeds:
  "pool_ok e w \<Longrightarrow> url_error e (URL (conf e)) = None \<Longrightarrow> i < length payloads \<Longrightarrow>
     \<exists>req. fst (acquire_release e w payloads) ! i = Inr req"
proof (induction payloads arbitrary: w i)
  case Nil
  then show ?case by simp
next
  case (Cons data rest)
  from getReq_succeeds [OF Cons.prems(1,2)] obtain r0 w1 where
    get: "getReq e w data = (Inr r0, w1)" by blast
  from getReq_fresh [OF Cons.prems(1) get] have "pool_ok e (putReq w1 r0)"
    by (auto intro: putReq_pool_ok)
  with get Cons.prems Cons.IH [of "putReq w1 r0"] show ?case
    by (cases i) (auto split: prod.splits)
qed

text \<open>
  The pool stays one of the output's own through \<^verbatim>\<open>send\<close>; it is so when the output
  starts, the pool being empty then.
\<close>

lemma pool_ok_issued: "pool_ok e (w\<lparr>issued := n\<rparr>) = pool_ok e w"
  by (simp add: pool_ok_def)

lemma send_pool_ok:
  assumes "pool_ok e w" and "send e w data = (r, w1, fx)"
  shows "pool_ok e w1"
proof (cases "getReq e w data")
  case (Pair res wa)
  from getReq_pool_ok [OF assms(1) Pair] have wa: "pool_ok e wa" .
  show ?thesis
  proof (cases res)
    case (Inl err)
    with Pair assms(2) wa show ?thesis by (simp add: send_def)
  next
    case (Inr req)
    with getReq_fresh [OF assms(1)] Pair have "fresh e data req" by simp
    with wa have "pool_ok e (putReq (wa\<lparr>issued := Suc (issued wa)\<rparr>) req)"
      by (auto intro: putReq_pool_ok simp: pool_ok_issued)
    with Pair Inr assms(2) show ?thesis
      by (auto simp: send_def Let_def split: sum.splits)
  qed
qed

text \<open>
  Claim C8. In any sequence of acquire and release cycles, started from a pool of the
  output's own (the empty pool of a new output is one), every request \<^verbatim>\<open>getReq\<close>
  returns has exactly the payload of that call as its body, whatever the payloads before
  were, has \<^verbatim>\<open>Content-Type\<close> and \<^verbatim>\<open>User-Agent\<close> set, and carries basic-auth
  credentials if and only if a username is configured (the configured ones, then). With a
  URL that parses, every call does return a request.
\<close>

theorem getReq_fresh_request:
  assumes "pool_ok e w" and "i < length payloads"
  shows "(url_error e (URL (conf e)) = None \<longrightarrow>
            (\<exists>req. fst (acquire_release e w payloads) ! i = Inr req))
       \<and> (\<forall>req. fst (acquire_release e w payloads) ! i = Inr req \<longrightarrow>
            Body req = Some (payloads ! i)
            \<and> Header req ''Content-Type'' = Some (Plain ''application/json'')
            \<and> Header req ''User-Agent'' = Some (Plain (''beat '' @ beat_Version e))
            \<and> ((Header req ''Authorization'' \<noteq> None) = (Username (conf e) \<noteq> ''''))
            \<and> (Username (conf e) \<noteq> '''' \<longrightarrow>
                 Header req ''Authorization'' =
                   Some (BasicAuth (Username (conf e)) (Password (conf e)))))"
  using acquire_release_succeeds [OF assms(1) _ assms(2)] acquire_release_fresh [OF assms]
  unfolding fresh_def by blast

text \<open>The second of two cycles: the request carries the second payload only.\<close>

theorem getReq_fresh_request_witness:
  "\<exists>req. fst (acquire_release ex_env ex_world [''[1]'', ''{}'']) ! 1 = Inr req
     \<and> Body req = Some ''{}''
     \<and> Header req ''Content-Type'' = Some (Plain ''application/json'')
     \<and> Header req ''User-Agent'' = Some (Plain ''beat 7.10.0'')
     \<and> Header req ''Authorization'' = Some (BasicAuth ''beat'' ''secret'')"
proof -
  have h1: "pool_ok ex_env ex_world" by (simp add: pool_ok_def ex_defs)
  have h2: "1 < length [''[1]'', ''{}'']" by simp
  have h3: "url_error ex_env (URL (conf ex_env)) = None" by (simp add: ex_defs)
  from getReq_fresh_request [OF h1 h2] h3 show ?thesis
    by (auto simp: ex_defs)
qed

section \<open>Properties of serializeOnlyFields\<close>

lemma assign_tokens_in_range:
  "\<forall>(key, i) \<in> set assignments. i < length slice \<Longrightarrow>
     fst (assign_tokens slice assignments m) = None"
  by (induction assignments arbitrary: m) auto

lemma token_fields_in_range:
  "29 \<le> length slice \<Longrightarrow> fst (assign_tokens slice token_fields m) = None"
  by (rule assign_tokens_in_range) (auto simp: token_fields_def)

lemma counter_fields_panic:
  assumes "30 \<le> length slice" and "length slice \<le> 34"
  shows "fst (assign_tokens slice counter_fields m) =
           Some (IndexOutOfRange
                   (if length slice = 30 then 30 else if length slice \<le> 32 then 32 else 34)
                   (length slice))"
  using assms by (auto simp: counter_fields_def)

text \<open>
  Claim C9. Take an event whose \<^verbatim>\<open>body\<close>, as \<^verbatim>\<open>serializeOnlyFields\<close> looks it up
  (in the event's map, after the timestamp and the configured fields have been written
  into it), is a string that \<^verbatim>\<open>strings.Split\<close> cuts into 30 to 34 pieces. Then
  \<^verbatim>\<open>serializeOnlyFields\<close> returns no error: it panics with an index out of range, in
  the branch guarded by \<^verbatim>\<open>len(slice) > 29\<close>. Index 34 is out of range for all these
  lengths, index 32 below 33 pieces, and index 30, the first one read, at 30 pieces.
\<close>

theorem serializeOnlyFields_counters_panic:
  assumes "Fields ev = Some a"
    and "((heap w a)(''@timestamp'' \<mapsto> VTime (Timestamp ev)) ++ AddFields (conf e)) ''body''
           = Some (VString s)"
    and "30 \<le> length (Split s CHR '' '')"
    and "length (Split s CHR '' '') \<le> 34"
  shows "fst (serializeOnlyFields e w ev) =
           Panic (IndexOutOfRange
                    (if length (Split s CHR '' '') = 30 then 30
                     else if length (Split s CHR '' '') \<le> 32 then 32 else 34)
                    (length (Split s CHR '' '')))"
proof -
  let ?slice = "Split s CHR '' ''"
  let ?m2 = "(heap w a)(''@timestamp'' \<mapsto> VTime (Timestamp ev)) ++ AddFields (conf e)"
  obtain m3 where m3: "assign_tokens ?slice token_fields ?m2 = (None, m3)"
    using token_fields_in_range [of ?slice ?m2] assms(3)
    by (cases "assign_tokens ?slice token_fields ?m2") simp
  obtain m4 where m4: "assign_tokens ?slice counter_fields m3 =
      (Some (IndexOutOfRange
                    (if length ?slice = 30 then 30
                     else if length ?slice \<le> 32 then 32 else 34)
                    (length ?slice)), m4)"
    using counter_fields_panic [OF assms(3,4), of m3]
    by (cases "assign_tokens ?slice counter_fields m3") simp
  from assms(3) have gt: "29 < length ?slice" by simp
  show ?thesis
    using assms(1,2) m3 m4 gt
    by (simp add: serializeOnlyFields_def GetValue_def Let_def)
qed

text \<open>A line of 30 pieces: reading \<^verbatim>\<open>slice[30]\<close> panics.\<close>

theorem serializeOnlyFields_counters_panic_witness:
  "length (Split ex_line CHR '' '') = 30
   \<and> fst (serializeOnlyFields ex_env_only (ex_world_body ex_line) (ex_event 1)) =
       Panic (IndexOutOfRange 30 30)"
proof -
  have len: "length (Split ex_line CHR '' '') = 30" by (simp add: ex_line_def)
  have h1: "Fields (ex_event 1) = Some 0" by (simp add: ex_defs)
  have h2: "((heap (ex_world_body ex_line) 0)(''@timestamp'' \<mapsto> VTime (Timestamp (ex_event 1)))
              ++ AddFields (conf ex_env_only)) ''body'' = Some (VString ex_line)"
    by (simp add: ex_defs)
  from serializeOnlyFields_counters_panic [OF h1 h2] len show ?thesis by simp
qed

text \<open>
  Claim C10. Take an event for which the lookup of \<^verbatim>\<open>body\<close> (in the event's map,
  after the timestamp and the configured fields have been written into it) finds no
  entry, or one that is not a string. Then \<^verbatim>\<open>serializeOnlyFields\<close> does not reach the
  branch that returns the lookup error: the value is asserted to be a string before the
  error is looked at, and the assertion panics. Nothing is logged. (An event whose map is
  nil has no entry either; there the write of the timestamp panics before the lookup.)
\<close>

theorem serializeOnlyFields_without_body_panics:
  assumes "\<forall>a s. Fields ev = Some a \<longrightarrow>
             ((heap w a)(''@timestamp'' \<mapsto> VTime (Timestamp ev)) ++ AddFields (conf e)) ''body''
               \<noteq> Some (VString s)"
  shows "fst (serializeOnlyFields e w ev) =
           (case Fields ev of None \<Rightarrow> Panic NilMapAssignment | Some a \<Rightarrow> Panic TypeAssertion)
       \<and> snd (snd (serializeOnlyFields e w ev)) = []"
proof (cases "Fields ev")
  case None
  then show ?thesis by (simp add: serializeOnlyFields_def)
next
  case (Some a)
  let ?m2 = "(heap w a)(''@timestamp'' \<mapsto> VTime (Timestamp ev)) ++ AddFields (conf e)"
  from assms Some have nostr: "\<And>s. ?m2 ''body'' \<noteq> Some (VString s)" by simp
  obtain v err where gv: "GetValue ?m2 ''body'' = (v, err)" and v: "\<And>s. v \<noteq> VString s"
  proof (cases "?m2 ''body''")
    case None
    have "GetValue ?m2 ''body'' = (VNil, Some ErrKeyNotFound)"
      unfolding GetValue_def None by simp
    with that show ?thesis by blast
  next
    case (Some v)
    have "GetValue ?m2 ''body'' = (v, None)"
      unfolding GetValue_def Some by simp
    moreover from nostr Some have "\<And>s. v \<noteq> VString s" by metis
    ultimately show ?thesis using that by blast
  qed
  show ?thesis
  proof (cases v)
    case (VString s)
    with v show ?thesis by blast
  qed (use Some gv in \<open>simp_all add: serializeOnlyFields_def Let_def\<close>)
qed

text \<open>An event with an empty map, and one with a nil map.\<close>

theorem serializeOnlyFields_without_body_panics_witness:
  "fst (serializeOnlyFields ex_env_only ex_world (ex_event 1)) = Panic TypeAssertion
   \<and> fst (serializeOnlyFields ex_env_only ex_world ex_event_nil) = Panic NilMapAssignment"
proof -
  have h1: "\<forall>a s. Fields (ex_event 1) = Some a \<longrightarrow>
             ((heap ex_world a)(''@timestamp'' \<mapsto> VTime (Timestamp (ex_event 1)))
                ++ AddFields (conf ex_env_only)) ''body'' \<noteq> Some (VString s)"
    by (simp add: ex_defs)
  have h2: "\<forall>a s. Fields ex_event_nil = Some a \<longrightarrow>
             ((heap ex_world a)(''@timestamp'' \<mapsto> VTime (Timestamp ex_event_nil))
                ++ AddFields (conf ex_env_only)) ''body'' \<noteq> Some (VString s)"
    by (simp add: ex_defs)
  from serializeOnlyFields_without_body_panics [OF h1]
    serializeOnlyFields_without_body_panics [OF h2]
  show ?thesis by (simp add: ex_defs)
qed

text \<open>For no event at all does \<^verbatim>\<open>serializeOnlyFields\<close> return the lookup error.\<close>

lemma serializeOnlyFields_lookup_branch_dead:
  "fst (serializeOnlyFields e w ev) \<noteq> Return (Inl ErrKeyNotFound)"
  by (auto simp: serializeOnlyFields_def GetValue_def Let_def
      split: option.splits val.splits prod.splits sum.splits if_splits)

section \<open>Properties of Publish\<close>

lemma calls_append:
  "batch_calls (xs @ ys) = batch_calls xs @ batch_calls ys"
  "observer_calls (xs @ ys) = observer_calls xs @ observer_calls ys"
  "send_calls (xs @ ys) = send_calls xs @ send_calls ys"
  by (simp_all add: batch_calls_def observer_calls_def send_calls_def)

lemma calls_Cons:
  "batch_calls (x # xs) = (if is_batch_call x then x # batch_calls xs else batch_calls xs)"
  "observer_calls (x # xs) = (if is_observer_call x then x # observer_calls xs else observer_calls xs)"
  "send_calls (x # xs) = (if is_send_call x then x # send_calls xs else send_calls xs)"
  by (simp_all add: batch_calls_def observer_calls_def send_calls_def)

lemma calls_Nil:
  "batch_calls [] = []" "observer_calls [] = []" "send_calls [] = []"
  by (simp_all add: batch_calls_def observer_calls_def send_calls_def)

text \<open>A serializer only logs; \<^verbatim>\<open>send\<close> touches neither the batch nor the observer.\<close>

lemma serializeAll_calls:
  assumes "serializeAll e w ev = (r, w1, fx)"
  shows "batch_calls fx = [] \<and> observer_calls fx = [] \<and> send_calls fx = []"
  using assms
  by (auto simp: serializeAll_def calls_Cons calls_Nil split: sum.splits)

lemma serializeOnlyFields_calls:
  assumes "serializeOnlyFields e w ev = (r, w1, fx)"
  shows "batch_calls fx = [] \<and> observer_calls fx = [] \<and> send_calls fx = []"
  using assms
  by (auto simp: serializeOnlyFields_def Let_def calls_Cons calls_Nil
      split: option.splits val.splits prod.splits sum.splits if_splits)

lemma serialize_calls:
  assumes "serialize e w ev = (r, w1, fx)"
  shows "batch_calls fx = [] \<and> observer_calls fx = [] \<and> send_calls fx = []"
  using assms serializeAll_calls serializeOnlyFields_calls
  by (simp add: serialize_def split: if_splits)

lemma send_calls_of_send:
  assumes "send e w data = (r, w1, fx)"
  shows "batch_calls fx = [] \<and> observer_calls fx = [] \<and> send_calls fx = [CallSend data]"
  using assms
  by (auto simp: send_def Let_def calls_Cons calls_Nil calls_append
      split: prod.splits sum.splits option.splits if_splits)

lemma delivered_calls:
  "delivered e w evs = Some (w', fx) \<Longrightarrow>
     batch_calls fx = [] \<and> observer_calls fx = [] \<and> length (send_calls fx) = length evs"
proof (induction evs arbitrary: w w' fx)
  case Nil
  then show ?case by (simp add: calls_Nil)
next
  case (Cons ev rest)
  from Cons.prems obtain data w1 fx1 w2 fx2 fx3 where
    ser: "serialize e w ev = (Return (Inr data), w1, fx1)" and
    snd: "send e w1 data = (None, w2, fx2)" and
    rest: "delivered e w2 rest = Some (w', fx3)" and
    fx: "fx = fx1 @ fx2 @ fx3"
    by (auto split: prod.splits outcome.splits sum.splits option.splits)
  from Cons.IH [OF rest] serialize_calls [OF ser] send_calls_of_send [OF snd] fx
  show ?case by (simp add: calls_append)
qed

text \<open>The loop runs through the events that are delivered and goes on with the rest.\<close>

lemma publish_events_delivered:
  "delivered e w xs = Some (w1, fx1) \<Longrightarrow>
     publish_events e events (xs @ ys) w =
       (case publish_events e events ys w1 of (r, w2, fx2) \<Rightarrow> (r, w2, fx1 @ fx2))"
proof (induction xs arbitrary: w w1 fx1)
  case Nil
  then show ?case by simp
next
  case (Cons ev rest)
  from Cons.prems obtain data wa fxa wb fxb fxc where
    ser: "serialize e w ev = (Return (Inr data), wa, fxa)" and
    snd: "send e wa data = (None, wb, fxb)" and
    rest: "delivered e wb rest = Some (w1, fxc)" and
    fx: "fx1 = fxa @ fxb @ fxc"
    by (auto split: prod.splits outcome.splits sum.splits option.splits)
  from Cons.IH [OF rest] ser snd fx show ?case
    by (simp split: prod.splits)
qed

lemma Publish_all_delivered:
  assumes "events \<noteq> []" and "delivered e w events = Some (w', fx)"
  shows "Publish e w events =
           (Return None, w', ObsNewBatch (length events) # fx @ [BatchACK, ObsAcked (length events)])"
  using assms publish_events_delivered [of e w events w' fx events "[]"]
  by (simp add: Publish_def)

lemma Publish_send_fails:
  assumes "n < length events"
    and "delivered e w (take n events) = Some (w1, fx1)"
    and "serialize e w1 (events ! n) = (Return (Inr data), w2, fx2)"
    and "send e w2 data = (Some err, w3, fx3)"
  shows "Publish e w events =
           (Return None, w3,
            ObsNewBatch (length events) # fx1 @ fx2 @ fx3 @
              [Log (severity (events ! n)) (WritingFailed err), ObsFailed (length events)])"
proof -
  from assms(1) have split: "events = take n events @ (events ! n) # drop (Suc n) events"
    by (simp add: id_take_nth_drop)
  have "publish_events e events (take n events @ (events ! n) # drop (Suc n) events) w =
          (Return None, w3,
           fx1 @ fx2 @ fx3 @
             [Log (severity (events ! n)) (WritingFailed err), ObsFailed (length events)])"
    using assms(3,4) by (simp add: publish_events_delivered [OF assms(2)])
  with split have "publish_events e events events w =
          (Return None, w3,
           fx1 @ fx2 @ fx3 @
             [Log (severity (events ! n)) (WritingFailed err), ObsFailed (length events)])"
    by simp
  with assms(1) show ?thesis by (auto simp: Publish_def)
qed

lemma Publish_serialize_fails:
  assumes "n < length events"
    and "delivered e w (take n events) = Some (w1, fx1)"
    and "serialize e w1 (events ! n) = (Return (Inl err), w2, fx2)"
  shows "Publish e w events =
           (Return None, w2,
            ObsNewBatch (length events) # fx1 @ fx2 @
              [Log (severity (events ! n)) (FailedToSerialize err),
               Log DebugLevel (FailedEvent (events ! n)),
               BatchRetryEvents events, ObsFailed (length events)])"
proof -
  from assms(1) have split: "events = take n events @ (events ! n) # drop (Suc n) events"
    by (simp add: id_take_nth_drop)
  have "publish_events e events (take n events @ (events ! n) # drop (Suc n) events) w =
          (Return None, w2,
           fx1 @ fx2 @
              [Log (severity (events ! n)) (FailedToSerialize err),
               Log DebugLevel (FailedEvent (events ! n)),
               BatchRetryEvents events, ObsFailed (length events)])"
    using assms(3) by (simp add: publish_events_delivered [OF assms(2)])
  with split have "publish_events e events events w =
          (Return None, w2,
           fx1 @ fx2 @
              [Log (severity (events ! n)) (FailedToSerialize err),
               Log DebugLevel (FailedEvent (events ! n)),
               BatchRetryEvents events, ObsFailed (length events)])"
    by simp
  with assms(1) show ?thesis by (auto simp: Publish_def)
qed

text \<open>
  Claim C1. For a batch that is not empty and whose events all serialize and are all sent
  without error, \<^verbatim>\<open>Publish\<close> returns, calls \<^verbatim>\<open>batch.ACK\<close> exactly once and
  \<^verbatim>\<open>batch.RetryEvents\<close> never, and tells the observer \<^verbatim>\<open>Acked\<close> with the number of
  events of the batch.
\<close>

theorem Publish_acks_once:
  assumes "events \<noteq> []" and "delivered e w events = Some (w', fx)"
  shows "fst (Publish e w events) = Return None
       \<and> batch_calls (snd (snd (Publish e w events))) = [BatchACK]
       \<and> observer_calls (snd (snd (Publish e w events))) =
           [ObsNewBatch (length events), ObsAcked (length events)]"
  using delivered_calls [OF assms(2)]
  by (simp add: Publish_all_delivered [OF assms] calls_Cons calls_append calls_Nil)

text \<open>Two events, a remote that answers 200.\<close>

theorem Publish_acks_once_witness:
  "delivered ex_env ex_world [ex_event 1, ex_event 2] \<noteq> None
   \<and> fst (Publish ex_env ex_world [ex_event 1, ex_event 2]) = Return None
   \<and> batch_calls (snd (snd (Publish ex_env ex_world [ex_event 1, ex_event 2]))) = [BatchACK]
   \<and> observer_calls (snd (snd (Publish ex_env ex_world [ex_event 1, ex_event 2]))) =
       [ObsNewBatch 2, ObsAcked 2]"
proof -
  have d: "delivered ex_env ex_world [ex_event 1, ex_event 2] \<noteq> None"
    by (simp add: ex_defs run_defs)
  then obtain w' fx where
    "delivered ex_env ex_world [ex_event 1, ex_event 2] = Some (w', fx)" by auto
  from Publish_acks_once [OF _ this] d show ?thesis by simp
qed

text \<open>
  Claim C2. When the events before the one at index \<open>n\<close> have been delivered, and the
  event at \<open>n\<close> serializes but its \<^verbatim>\<open>send\<close> returns an error (of any kind),
  \<^verbatim>\<open>Publish\<close> returns without a call to \<^verbatim>\<open>batch.ACK\<close> or \<^verbatim>\<open>batch.RetryEvents\<close>;
  \<^verbatim>\<open>send\<close> has been invoked for the events up to \<open>n\<close> and for no event after it; and
  the observer is told \<^verbatim>\<open>Failed\<close> with the number of events of the whole batch.
\<close>

theorem Publish_send_failure:
  assumes "n < length events"
    and "delivered e w (take n events) = Some (w1, fx1)"
    and "serialize e w1 (events ! n) = (Return (Inr data), w2, fx2)"
    and "send e w2 data = (Some err, w3, fx3)"
  shows "fst (Publish e w events) = Return None
       \<and> batch_calls (snd (snd (Publish e w events))) = []
       \<and> send_calls (snd (snd (Publish e w events))) = send_calls fx1 @ [CallSend data]
       \<and> length (send_calls (snd (snd (Publish e w events)))) = Suc n
       \<and> observer_calls (snd (snd (Publish e w events))) =
           [ObsNewBatch (length events), ObsFailed (length events)]"
  using delivered_calls [OF assms(2)] serialize_calls [OF assms(3)]
    send_calls_of_send [OF assms(4)] assms(1)
  by (simp add: Publish_send_fails [OF assms] calls_Cons calls_append calls_Nil)

text \<open>Three events, a remote that answers the second request with 503.\<close>

theorem Publish_send_failure_witness:
  "fst (Publish ex_env_down ex_world [ex_event 1, ex_event 2, ex_event 3]) = Return None
   \<and> batch_calls (snd (snd (Publish ex_env_down ex_world [ex_event 1, ex_event 2, ex_event 3]))) = []
   \<and> send_calls (snd (snd (Publish ex_env_down ex_world [ex_event 1, ex_event 2, ex_event 3]))) =
       [CallSend ''{}'', CallSend ''{}'']
   \<and> observer_calls (snd (snd (Publish ex_env_down ex_world [ex_event 1, ex_event 2, ex_event 3]))) =
       [ObsNewBatch 3, ObsFailed 3]"
proof -
  let ?evs = "[ex_event 1, ex_event 2, ex_event 3]"
  let ?d = "the (delivered ex_env_down ex_world [ex_event 1])"
  let ?s = "send ex_env_down (fst ?d) ''{}''"
  have h1: "Suc 0 < length ?evs" by simp
  have h2: "delivered ex_env_down ex_world (take (Suc 0) ?evs) = Some (fst ?d, snd ?d)"
    by (simp add: ex_defs run_defs)
  have h3: "serialize ex_env_down (fst ?d) (?evs ! Suc 0) = (Return (Inr ''{}''), fst ?d, [])"
    by (simp add: ex_defs run_defs)
  have h4: "?s = (Some (BadResponseCode 503), fst (snd ?s), snd (snd ?s))"
    by (simp add: ex_defs run_defs)
  have fx1: "send_calls (snd ?d) = [CallSend ''{}'']"
    by (simp add: ex_defs run_defs send_calls_def)
  from Publish_send_failure [OF h1 h2 h3 h4] fx1 show ?thesis by simp
qed

text \<open>
  Claim C3. When the events before the one at index \<open>n\<close> have been delivered and the
  serializer returns an error for the event at \<open>n\<close>, \<^verbatim>\<open>Publish\<close> returns after one
  call on the batch: \<^verbatim>\<open>batch.RetryEvents\<close> with the events of the whole batch, as it
  got them from \<^verbatim>\<open>batch.Events()\<close>. It never calls \<^verbatim>\<open>batch.ACK\<close>, and \<^verbatim>\<open>send\<close> has
  been invoked for the \<open>n\<close> events before only: not for the event at \<open>n\<close>, nor for any
  after it.
\<close>

theorem Publish_serialize_failure:
  assumes "n < length events"
    and "delivered e w (take n events) = Some (w1, fx1)"
    and "serialize e w1 (events ! n) = (Return (Inl err), w2, fx2)"
  shows "fst (Publish e w events) = Return None
       \<and> batch_calls (snd (snd (Publish e w events))) = [BatchRetryEvents events]
       \<and> send_calls (snd (snd (Publish e w events))) = send_calls fx1
       \<and> length (send_calls (snd (snd (Publish e w events)))) = n"
  using delivered_calls [OF assms(2)] serialize_calls [OF assms(3)] assms(1)
  by (simp add: Publish_serialize_fails [OF assms] calls_Cons calls_append calls_Nil)

text \<open>Three events, the second of which the codec rejects.\<close>

theorem Publish_serialize_failure_witness:
  "fst (Publish ex_env ex_world [ex_event 1, ex_event_nil, ex_event 3]) = Return None
   \<and> batch_calls (snd (snd (Publish ex_env ex_world [ex_event 1, ex_event_nil, ex_event 3]))) =
       [BatchRetryEvents [ex_event 1, ex_event_nil, ex_event 3]]
   \<and> send_calls (snd (snd (Publish ex_env ex_world [ex_event 1, ex_event_nil, ex_event 3]))) =
       [CallSend ''{}'']"
proof -
  let ?evs = "[ex_event 1, ex_event_nil, ex_event 3]"
  let ?d = "the (delivered ex_env ex_world [ex_event 1])"
  have h1: "Suc 0 < length ?evs" by simp
  have h2: "delivered ex_env ex_world (take (Suc 0) ?evs) = Some (fst ?d, snd ?d)"
    by (simp add: ex_defs run_defs)
  have h3: "serialize ex_env (fst ?d) (?evs ! Suc 0) =
              (Return (Inl (EncodeError ''no fields'')), fst ?d,
               [Log ErrorLevel (SerializationError (EncodeError ''no fields''))])"
    by (simp add: ex_defs run_defs)
  have fx1: "send_calls (snd ?d) = [CallSend ''{}'']"
    by (simp add: ex_defs run_defs send_calls_def)
  from Publish_serialize_failure [OF h1 h2 h3] fx1 show ?thesis by simp
qed

text \<open>
  Claim C4 says that after a serialization failure the observer is told \<^verbatim>\<open>Retried\<close> with
  the number of events, not \<^verbatim>\<open>Failed\<close>. The observer has no such notification, and the
  code calls \<^verbatim>\<open>st.Failed(len(events))\<close> right after \<^verbatim>\<open>batch.RetryEvents(events)\<close>: for
  a batch of one event that the codec rejects, the batch is given back for retry and the
  observer is told \<^verbatim>\<open>NewBatch(1)\<close> and \<^verbatim>\<open>Failed(1)\<close>.
\<close>

theorem observer_told_Failed_counterexample:
  "fst (serialize ex_env ex_world ex_event_nil) = Return (Inl (EncodeError ''no fields''))
   \<and> batch_calls (snd (snd (Publish ex_env ex_world [ex_event_nil]))) =
       [BatchRetryEvents [ex_event_nil]]
   \<and> observer_calls (snd (snd (Publish ex_env ex_world [ex_event_nil]))) =
       [ObsNewBatch 1, ObsFailed 1]"
  by (simp add: ex_defs run_defs Publish_def batch_calls_def observer_calls_def severity_def)

text \<open>
  Claim C4, amended. When the events before the one at index \<open>n\<close> have been delivered and
  the serializer returns an error for the event at \<open>n\<close>, the batch is given back for
  retry, and what the observer is told for this batch is \<^verbatim>\<open>NewBatch\<close> and then
  \<^verbatim>\<open>Failed\<close>, both with the number of events of the whole batch.
\<close>

theorem Publish_serialize_failure_observer:
  assumes "n < length events"
    and "delivered e w (take n events) = Some (w1, fx1)"
    and "serialize e w1 (events ! n) = (Return (Inl err), w2, fx2)"
  shows "batch_calls (snd (snd (Publish e w events))) = [BatchRetryEvents events]
       \<and> observer_calls (snd (snd (Publish e w events))) =
           [ObsNewBatch (length events), ObsFailed (length events)]"
  using delivered_calls [OF assms(2)] serialize_calls [OF assms(3)] assms(1)
  by (simp add: Publish_serialize_fails [OF assms] calls_Cons calls_append calls_Nil)

text \<open>Three events, the last of which the codec rejects.\<close>

theorem Publish_serialize_failure_observer_witness:
  "observer_calls (snd (snd (Publish ex_env ex_world [ex_event 1, ex_event 2, ex_event_nil]))) =
       [ObsNewBatch 3, ObsFailed 3]"
proof -
  let ?evs = "[ex_event 1, ex_event 2, ex_event_nil]"
  let ?d = "the (delivered ex_env ex_world [ex_event 1, ex_event 2])"
  have h1: "Suc (Suc 0) < length ?evs" by simp
  have h2: "delivered ex_env ex_world (take (Suc (Suc 0)) ?evs) = Some (fst ?d, snd ?d)"
    by (simp add: ex_defs run_defs)
  have h3: "serialize ex_env (fst ?d) (?evs ! Suc (Suc 0)) =
              (Return (Inl (EncodeError ''no fields'')), fst ?d,
               [Log ErrorLevel (SerializationError (EncodeError ''no fields''))])"
    by (simp add: ex_defs run_defs)
  from Publish_serialize_failure_observer [OF h1 h2 h3] show ?thesis by simp
qed

text \<open>\<^verbatim>\<open>Publish\<close> leaves the pool one of the output's own.\<close>

lemma serialize_idle:
  assumes "serialize e w ev = (r, w1, fx)"
  shows "idle w1 = idle w"
  using assms
  by (auto simp: serialize_def serializeAll_def serializeOnlyFields_def store_def Let_def
      split: option.splits val.splits prod.splits sum.splits if_splits)

lemma publish_events_pool_ok:
  "pool_ok e w \<Longrightarrow> publish_events e events evs w = (r, w', fx) \<Longrightarrow> pool_ok e w'"
proof (induction evs arbitrary: w r w' fx)
  case Nil
  then show ?case by simp
next
  case (Cons ev rest)
  obtain o1 w1 fx1 where ser: "serialize e w ev = (o1, w1, fx1)"
    by (cases "serialize e w ev") auto
  from serialize_idle [OF ser] Cons.prems(1) have w1: "pool_ok e w1"
    by (simp add: pool_ok_def)
  show ?case
  proof (cases o1)
    case (Panic p)
    with ser Cons.prems(2) w1 show ?thesis by simp
  next
    case (Return res)
    show ?thesis
    proof (cases res)
      case (Inl err)
      with Return ser Cons.prems(2) w1 show ?thesis by auto
    next
      case (Inr data)
      obtain r2 w2 fx2 where snd: "send e w1 data = (r2, w2, fx2)"
        by (cases "send e w1 data") auto
      from send_pool_ok [OF w1 snd] have w2: "pool_ok e w2" .
      show ?thesis
      proof (cases r2)
        case None
        with Inr Return ser snd Cons.prems(2) Cons.IH [OF w2] show ?thesis
          by (auto split: prod.splits)
      next
        case (Some err)
        with Inr Return ser snd Cons.prems(2) w2 show ?thesis by auto
      qed
    qed
  qed
qed

lemma Publish_pool_ok:
  assumes "pool_ok e w" and "Publish e w events = (r, w', fx)"
  shows "pool_ok e w'"
  using assms publish_events_pool_ok [of e w events events]
  by (auto simp: Publish_def split: if_splits prod.splits)

section \<open>Properties of the dialer\<close>

lemma dial_ips_first_success:
  "k < length ips \<Longrightarrow>
   dialer_DialContext ne (k0 + k) network (JoinHostPort (ips ! k) port) = Inr c \<Longrightarrow>
   (\<forall>j<k. \<exists>m. dialer_DialContext ne (k0 + j) network (JoinHostPort (ips ! j) port) = Inl m) \<Longrightarrow>
   dial_ips ne network port k0 ips res =
     ((Some c, None), map (\<lambda>ip. JoinHostPort ip port) (take (Suc k) ips))"
proof (induction ips arbitrary: k k0 res)
  case Nil
  then show ?case by simp
next
  case (Cons ip ips)
  show ?case
  proof (cases k)
    case 0
    with Cons.prems show ?thesis by simp
  next
    case (Suc k')
    from Cons.prems(3) Suc obtain m where
      first: "dialer_DialContext ne k0 network (JoinHostPort ip port) = Inl m"
      by fastforce
    have "dial_ips ne network port (Suc k0) ips (None, Some m) =
            ((Some c, None), map (\<lambda>ip. JoinHostPort ip port) (take (Suc k') ips))"
    proof (rule Cons.IH)
      show "k' < length ips" using Cons.prems(1) Suc by simp
      show "dialer_DialContext ne (Suc k0 + k') network (JoinHostPort (ips ! k') port) = Inr c"
        using Cons.prems(2) Suc by simp
      show "\<forall>j<k'. \<exists>m. dialer_DialContext ne (Suc k0 + j) network
                          (JoinHostPort (ips ! j) port) = Inl m"
      proof (intro allI impI)
        fix j assume "j < k'"
        then have "Suc j < k" using Suc by simp
        with Cons.prems(3)
        show "\<exists>m. dialer_DialContext ne (Suc k0 + j) network (JoinHostPort (ips ! j) port) = Inl m"
          by fastforce
      qed
    qed
    with first Suc show ?thesis by simp
  qed
qed

lemma dial_ips_all_fail:
  "ips \<noteq> [] \<Longrightarrow>
   (\<forall>j<length ips. \<exists>m. dialer_DialContext ne (k0 + j) network
                          (JoinHostPort (ips ! j) port) = Inl m) \<Longrightarrow>
   dialer_DialContext ne (k0 + (length ips - 1)) network (JoinHostPort (last ips) port) = Inl m \<Longrightarrow>
   dial_ips ne network port k0 ips res =
     ((None, Some m), map (\<lambda>ip. JoinHostPort ip port) ips)"
proof (induction ips arbitrary: k0 res)
  case Nil
  then show ?case by simp
next
  case (Cons ip ips)
  from Cons.prems(2) obtain m0 where
    first: "dialer_DialContext ne k0 network (JoinHostPort ip port) = Inl m0"
    by fastforce
  show ?case
  proof (cases "ips = []")
    case True
    with Cons.prems(3) first show ?thesis by simp
  next
    case False
    have "dial_ips ne network port (Suc k0) ips (None, Some m0) =
            ((None, Some m), map (\<lambda>ip. JoinHostPort ip port) ips)"
    proof (rule Cons.IH [OF False])
      show "\<forall>j<length ips. \<exists>m. dialer_DialContext ne (Suc k0 + j) network
                                  (JoinHostPort (ips ! j) port) = Inl m"
      proof (intro allI impI)
        fix j assume "j < length ips"
        then have "Suc j < length (ip # ips)" by simp
        with Cons.prems(2)
        show "\<exists>m. dialer_DialContext ne (Suc k0 + j) network (JoinHostPort (ips ! j) port) = Inl m"
          by fastforce
      qed
      show "dialer_DialContext ne (Suc k0 + (length ips - 1)) network
              (JoinHostPort (last ips) port) = Inl m"
        using Cons.prems(3) False by (simp add: Suc_diff_le Suc_leI)
    qed
    with first show ?thesis by simp
  qed
qed

text \<open>
  A resolver that returns no address and no error leaves the loop nothing to do: nothing
  is dialled, and the named results go back as they are, both nil.
\<close>

lemma DialContext_no_candidates:
  assumes "SplitHostPort ne addr = Inr (host, port)" and "LookupHost ne host = Inr []"
  shows "DialContext ne network addr = ((None, None), [])"
  using assms by (simp add: DialContext_def)

text \<open>
  Claim C7 says that when every candidate fails the dialer returns the last error wrapped
  as \<^verbatim>\<open>DialError\<close>. The closure returns the named result \<^verbatim>\<open>err\<close> as the last
  call of \<^verbatim>\<open>dialer.DialContext\<close> assigned it, just as it returns the resolver's
  error: for a host whose only address refuses the connection, what comes back is the
  dialer's error itself, not that error wrapped.
\<close>

theorem DialContext_unwrapped_counterexample:
  "SplitHostPort ex_net ''standby:8080'' = Inr (''standby'', ''8080'')
   \<and> LookupHost ex_net ''standby'' = Inr [''10.0.0.3'']
   \<and> dialer_DialContext ex_net 0 ''tcp'' (JoinHostPort ''10.0.0.3'' ''8080'') =
       Inl (NetError ''connection refused'')
   \<and> snd (fst (DialContext ex_net ''tcp'' ''standby:8080'')) =
       Some (NetError ''connection refused'')
   \<and> snd (fst (DialContext ex_net ''tcp'' ''standby:8080'')) \<noteq>
       Some (wrapped_as_DialError (NetError ''connection refused''))"
  by (simp add: ex_net_def DialContext_def JoinHostPort_def wrapped_as_DialError_def)

text \<open>
  Claim C7, amended. For an address that splits into host and port: if the resolver
  fails, the dialer returns the resolver's error as it is and dials nothing. If it
  returns addresses, the dialer dials them in the order returned, each joined with the
  port of the address it was given, up to and including the first that connects, and
  returns that connection. If none of them connects (a resolution that succeeds returns
  at least one address), it has dialled them all and returns the error of the last
  attempt as the dialer returned it, not wrapped.
\<close>

theorem DialContext_candidates:
  assumes "SplitHostPort ne addr = Inr (host, port)"
  shows "(LookupHost ne host = Inl err \<longrightarrow>
            DialContext ne network addr = ((None, Some err), []))
       \<and> (LookupHost ne host = Inr ips \<and> k < length ips
            \<and> dialer_DialContext ne k network (JoinHostPort (ips ! k) port) = Inr c
            \<and> (\<forall>j<k. \<exists>err'. dialer_DialContext ne j network (JoinHostPort (ips ! j) port) = Inl err')
          \<longrightarrow> DialContext ne network addr =
                ((Some c, None), map (\<lambda>ip. JoinHostPort ip port) (take (Suc k) ips)))
       \<and> (LookupHost ne host = Inr ips \<and> ips \<noteq> []
            \<and> (\<forall>j<length ips. \<exists>err'. dialer_DialContext ne j network
                                        (JoinHostPort (ips ! j) port) = Inl err')
            \<and> dialer_DialContext ne (length ips - 1) network (JoinHostPort (last ips) port) = Inl err
          \<longrightarrow> DialContext ne network addr =
                ((None, Some err), map (\<lambda>ip. JoinHostPort ip port) ips))"
  using assms dial_ips_first_success [of k ips ne 0 network port c "(None, None)"]
    dial_ips_all_fail [of ips ne 0 network port err "(None, None)"]
  by (simp add: DialContext_def)

text \<open>
  A host that does not resolve; one whose first address refuses and whose second
  connects; one with two addresses that both refuse.
\<close>

theorem DialContext_candidates_witness:
  "DialContext ex_net ''tcp'' ''nowhere:8080'' =
     ((None, Some (NetError ''no such host'')), [])
   \<and> DialContext ex_net ''tcp'' ''collector:8080'' =
     ((Some 7, None), [''10.0.0.1:8080'', ''10.0.0.2:8080''])
   \<and> DialContext ex_net ''tcp'' ''backup:8080'' =
     ((None, Some (NetError ''network is unreachable'')), [''10.0.0.4:8080'', ''10.0.0.5:8080''])"
proof -
  have s1: "SplitHostPort ex_net ''nowhere:8080'' = Inr (''nowhere'', ''8080'')"
    by (simp add: ex_net_def)
  have s2: "SplitHostPort ex_net ''collector:8080'' = Inr (''collector'', ''8080'')"
    by (simp add: ex_net_def)
  have s3: "SplitHostPort ex_net ''backup:8080'' = Inr (''backup'', ''8080'')"
    by (simp add: ex_net_def)
  have a: "DialContext ex_net ''tcp'' ''nowhere:8080'' =
     ((None, Some (NetError ''no such host'')), [])"
    using DialContext_candidates [OF s1, of "NetError ''no such host''" "''tcp''" "[]" 0 0]
    by (simp add: ex_net_def)
  have b: "DialContext ex_net ''tcp'' ''collector:8080'' =
     ((Some 7, None), [''10.0.0.1:8080'', ''10.0.0.2:8080''])"
    using DialContext_candidates [OF s2, of "NetError []" "''tcp''"
        "[''10.0.0.1'', ''10.0.0.2'']" "Suc 0" 7]
    by (simp add: ex_net_def JoinHostPort_def)
  have c: "DialContext ex_net ''tcp'' ''backup:8080'' =
     ((None, Some (NetError ''network is unreachable'')), [''10.0.0.4:8080'', ''10.0.0.5:8080''])"
    using DialContext_candidates [OF s3, of "NetError ''network is unreachable''" "''tcp''"
        "[''10.0.0.4'', ''10.0.0.5'']" 0 0]
    by (simp add: ex_net_def JoinHostPort_def less_Suc_eq)
  from a b c show ?thesis by simp
qed

end
